theory Spec2Isabelle
  imports Complex_Main "HOL-Library.Sublist"
begin

section \<open>JavaScript strings\<close>

text \<open>
  A JavaScript string is a sequence of UTF-16 code units; \<^verbatim>\<open>length\<close>,
  \<^verbatim>\<open>substring\<close>, \<^verbatim>\<open>startsWith\<close>, \<^verbatim>\<open>includes\<close> and the regular expressions of
  \<^verbatim>\<open>src/matchIcon.ts\<close> (none of which has the \<^verbatim>\<open>u\<close> flag) all work on code units.
  A code unit is modelled by its number. Every Hebrew letter is one code unit
  (U+0590 to U+05FF lie in the basic plane).
\<close>

type_synonym jschar = nat
type_synonym jsstring = "jschar list"

text \<open>The class \<^verbatim>\<open>\s\<close> of a JavaScript regular expression, which is also what
  \<^verbatim>\<open>String.prototype.trim\<close> strips: the WhiteSpace and LineTerminator code points.\<close>

definition isSpace :: "jschar \<Rightarrow> bool" where
  "isSpace c =
     ((0x9 \<le> c \<and> c \<le> 0xD) \<or> c = 0x20 \<or> c = 0xA0 \<or> c = 0x1680 \<or>
      (0x2000 \<le> c \<and> c \<le> 0x200A) \<or> c = 0x2028 \<or> c = 0x2029 \<or> c = 0x202F \<or>
      c = 0x205F \<or> c = 0x3000 \<or> c = 0xFEFF)"

text \<open>The class \<^verbatim>\<open>\w\<close> without the \<^verbatim>\<open>u\<close> and \<^verbatim>\<open>i\<close> flags: \<^verbatim>\<open>[A-Za-z0-9_]\<close>.\<close>

definition isWord :: "jschar \<Rightarrow> bool" where
  "isWord c =
     ((0x30 \<le> c \<and> c \<le> 0x39) \<or> (0x41 \<le> c \<and> c \<le> 0x5A) \<or> c = 0x5F \<or>
      (0x61 \<le> c \<and> c \<le> 0x7A))"

text \<open>The range \<^verbatim>\<open>\u0590-\u05FF\<close>.\<close>

definition isHebrew :: "jschar \<Rightarrow> bool" where
  "isHebrew c = (0x590 \<le> c \<and> c \<le> 0x5FF)"

text \<open>
  \<^verbatim>\<open>String.prototype.toLowerCase\<close>, one code unit at a time. The Unicode lower-case
  mapping is written out where its result can survive the regular expression of
  \<^verbatim>\<open>normalizeText\<close>: the letters A to Z, U+0130 (which becomes \<^verbatim>\<open>i\<close> followed by
  U+0307) and U+212A (the Kelvin sign, which becomes \<^verbatim>\<open>k\<close>). Every other cased
  code point is mapped by JavaScript to the same number of code units, none of them in
  \<^verbatim>\<open>\w\<close>, \<^verbatim>\<open>\s\<close> or the Hebrew range, and no code unit of these three classes other
  than A to Z is changed; the model leaves all of them as they are, which
  \<^verbatim>\<open>normalizeText\<close> cannot tell apart, since it blanks them.
\<close>

definition lowerUnit :: "jschar \<Rightarrow> jsstring" where
  "lowerUnit c =
     (if 0x41 \<le> c \<and> c \<le> 0x5A then [c + 0x20]
      else if c = 0x130 then [0x69, 0x307]
      else if c = 0x212A then [0x6B]
      else [c])"

definition toLowerCase :: "jsstring \<Rightarrow> jsstring" where
  "toLowerCase s = concat (map lowerUnit s)"

definition trim :: "jsstring \<Rightarrow> jsstring" where
  "trim s = rev (dropWhile isSpace (rev (dropWhile isSpace s)))"

text \<open>\<^verbatim>\<open>.replace(/[^\w\s\u0590-\u05FF]/g, ' ')\<close>\<close>

definition replacePunctuation :: "jsstring \<Rightarrow> jsstring" where
  "replacePunctuation s =
     map (\<lambda>c. if isWord c \<or> isSpace c \<or> isHebrew c then c else 0x20) s"

text \<open>\<^verbatim>\<open>.replace(/\s+/g, ' ')\<close>: every maximal run of white space becomes one space;
  the space is emitted at the last code unit of the run.\<close>

fun collapseSpaces :: "jsstring \<Rightarrow> jsstring" where
  "collapseSpaces [] = []"
| "collapseSpaces [c] = (if isSpace c then [0x20] else [c])"
| "collapseSpaces (c # d # s) =
     (if isSpace c then (if isSpace d then collapseSpaces (d # s)
                         else 0x20 # collapseSpaces (d # s))
      else c # collapseSpaces (d # s))"

definition normalizeText :: "jsstring \<Rightarrow> jsstring" where
  "normalizeText text =
     trim (collapseSpaces (replacePunctuation (trim (toLowerCase text))))"

text \<open>\<^verbatim>\<open>s.startsWith(p)\<close>, \<^verbatim>\<open>s.substring(n)\<close> for \<open>n\<close> within the string,
  \<^verbatim>\<open>s.includes(t)\<close> and \<^verbatim>\<open>s.split(' ')\<close>.\<close>

fun startsWith :: "jsstring \<Rightarrow> jsstring \<Rightarrow> bool" where
  "startsWith s [] = True"
| "startsWith [] (p # ps) = False"
| "startsWith (c # s) (p # ps) = (c = p \<and> startsWith s ps)"

definition substring :: "jsstring \<Rightarrow> nat \<Rightarrow> jsstring" where
  "substring s n = drop n s"

fun includes_str :: "jsstring \<Rightarrow> jsstring \<Rightarrow> bool" where
  "includes_str [] t = (t = [])"
| "includes_str (c # s) t = (startsWith (c # s) t \<or> includes_str s t)"

fun split :: "jsstring \<Rightarrow> jschar \<Rightarrow> jsstring list" where
  "split [] sep = [[]]"
| "split (c # s) sep =
     (if c = sep then [] # split s sep
      else (case split s sep of w # ws \<Rightarrow> (c # w) # ws | [] \<Rightarrow> [[c]]))"

section \<open>Search terms\<close>

definition he :: jschar where "he = 0x5D4"
definition vav :: jschar where "vav = 0x5D5"

definition stripHebrewPrefixes :: "jsstring \<Rightarrow> jsstring list" where
  "stripHebrewPrefixes word =
     [word]
     @ (if startsWith word [he] \<and> length word > 2 then [substring word 1] else [])
     @ (if startsWith word [vav] \<and> length word > 2 then [substring word 1] else [])
     @ (if startsWith word [vav, he] \<and> length word > 3 then [substring word 2] else [])"

definition normalizeHebrewSpelling :: "jsstring \<Rightarrow> jsstring list" where
  "normalizeHebrewSpelling text = [text]"

text \<open>\<^verbatim>\<open>/[\u0590-\u05FF]/.test(word)\<close>\<close>

definition containsHebrew :: "jsstring \<Rightarrow> bool" where
  "containsHebrew word = list_ex isHebrew word"

definition tokens :: "jsstring \<Rightarrow> jsstring list" where
  "tokens normalized = filter (\<lambda>word. length word > 1) (split normalized 0x20)"

definition variations :: "jsstring \<Rightarrow> jsstring list" where
  "variations word =
     (if containsHebrew word
      then [word] @ stripHebrewPrefixes word @ normalizeHebrewSpelling word
      else [word])"

definition extractKeywords :: "jsstring \<Rightarrow> jsstring list" where
  "extractKeywords text =
     (let normalized = normalizeText text;
          words = tokens normalized;
          allVariations = concat (map variations words)
      in [normalized] @ words @ allVariations)"

section \<open>The tables\<close>

text \<open>
  Both tables are JSON objects, made by \<^verbatim>\<open>JSON.parse\<close>. A table is modelled by the list
  of its own entries in the order in which \<^verbatim>\<open>Object.entries\<close> and \<^verbatim>\<open>Object.keys\<close>
  enumerate them; the keys of an object are distinct.
\<close>

type_synonym YotoSynonyms = "(jsstring \<times> jsstring list) list"
type_synonym YotoIconMapping = "(jsstring \<times> jsstring) list"

text \<open>
  A property read \<^verbatim>\<open>iconMappings[keyword]\<close> looks among the own entries first and then
  along the prototype chain, which for an object made by \<^verbatim>\<open>JSON.parse\<close> is
  \<^verbatim>\<open>Object.prototype\<close>. The read gives the string of the own entry, or the member of
  \<^verbatim>\<open>Object.prototype\<close> of that name (a function; for \<^verbatim>\<open>__proto__\<close> the prototype
  object), or \<^verbatim>\<open>undefined\<close>, which is \<open>None\<close> here.
\<close>

datatype jsvalue = Str jsstring | PrototypeMember jsstring

text \<open>The names of the members of \<^verbatim>\<open>Object.prototype\<close>: \<^verbatim>\<open>constructor\<close>,
  \<^verbatim>\<open>__defineGetter__\<close>, \<^verbatim>\<open>__defineSetter__\<close>, \<^verbatim>\<open>hasOwnProperty\<close>,
  \<^verbatim>\<open>__lookupGetter__\<close>, \<^verbatim>\<open>__lookupSetter__\<close>, \<^verbatim>\<open>isPrototypeOf\<close>,
  \<^verbatim>\<open>propertyIsEnumerable\<close>, \<^verbatim>\<open>toString\<close>, \<^verbatim>\<open>valueOf\<close>, \<^verbatim>\<open>__proto__\<close> and
  \<^verbatim>\<open>toLocaleString\<close>.\<close>

definition objectPrototypeMembers :: "jsstring list" where
  "objectPrototypeMembers =
     [[0x63, 0x6F, 0x6E, 0x73, 0x74, 0x72, 0x75, 0x63, 0x74, 0x6F, 0x72],
      [0x5F, 0x5F, 0x64, 0x65, 0x66, 0x69, 0x6E, 0x65, 0x47, 0x65, 0x74, 0x74, 0x65, 0x72, 0x5F, 0x5F],
      [0x5F, 0x5F, 0x64, 0x65, 0x66, 0x69, 0x6E, 0x65, 0x53, 0x65, 0x74, 0x74, 0x65, 0x72, 0x5F, 0x5F],
      [0x68, 0x61, 0x73, 0x4F, 0x77, 0x6E, 0x50, 0x72, 0x6F, 0x70, 0x65, 0x72, 0x74, 0x79],
      [0x5F, 0x5F, 0x6C, 0x6F, 0x6F, 0x6B, 0x75, 0x70, 0x47, 0x65, 0x74, 0x74, 0x65, 0x72, 0x5F, 0x5F],
      [0x5F, 0x5F, 0x6C, 0x6F, 0x6F, 0x6B, 0x75, 0x70, 0x53, 0x65, 0x74, 0x74, 0x65, 0x72, 0x5F, 0x5F],
      [0x69, 0x73, 0x50, 0x72, 0x6F, 0x74, 0x6F, 0x74, 0x79, 0x70, 0x65, 0x4F, 0x66],
      [0x70, 0x72, 0x6F, 0x70, 0x65, 0x72, 0x74, 0x79, 0x49, 0x73, 0x45, 0x6E, 0x75, 0x6D, 0x65,
       0x72, 0x61, 0x62, 0x6C, 0x65],
      [0x74, 0x6F, 0x53, 0x74, 0x72, 0x69, 0x6E, 0x67],
      [0x76, 0x61, 0x6C, 0x75, 0x65, 0x4F, 0x66],
      [0x5F, 0x5F, 0x70, 0x72, 0x6F, 0x74, 0x6F, 0x5F, 0x5F],
      [0x74, 0x6F, 0x4C, 0x6F, 0x63, 0x61, 0x6C, 0x65, 0x53, 0x74, 0x72, 0x69, 0x6E, 0x67]]"

definition getProperty :: "YotoIconMapping \<Rightarrow> jsstring \<Rightarrow> jsvalue option" where
  "getProperty obj key =
     (case map_of obj key of
        Some v \<Rightarrow> Some (Str v)
      | None \<Rightarrow> if key \<in> set objectPrototypeMembers then Some (PrototypeMember key) else None)"

text \<open>The truthiness that \<^verbatim>\<open>||\<close> and \<^verbatim>\<open>!\<close> test: \<^verbatim>\<open>undefined\<close> and the empty string
  are falsy, every other string and every function or object is truthy.\<close>

definition truthy :: "jsvalue option \<Rightarrow> bool" where
  "truthy v =
     (case v of
        None \<Rightarrow> False
      | Some (Str s) \<Rightarrow> s \<noteq> []
      | Some (PrototypeMember m) \<Rightarrow> True)"

text \<open>\<^verbatim>\<open>iconMappings[keyword] || null\<close>\<close>

definition lookupIcon :: "YotoIconMapping \<Rightarrow> jsstring \<Rightarrow> jsvalue option" where
  "lookupIcon iconMappings kw =
     (let v = getProperty iconMappings kw in if truthy v then v else None)"

section \<open>The keyword matcher\<close>

text \<open>
  \<^verbatim>\<open>findBestKeywordMatch\<close> runs three nested loops over the mutable pair
  \<^verbatim>\<open>(bestMatch, bestScore)\<close> and leaves them by \<^verbatim>\<open>return keyword\<close> at an exact match.
  The outcome of a piece of the loop is either that early return or the updated pair.
\<close>

datatype scan = Return jsstring | Continue "jsstring option" nat

text \<open>The body of the innermost loop, for one search term and one candidate.\<close>

definition checkTerm ::
  "jsstring \<Rightarrow> jsstring \<Rightarrow> jsstring \<Rightarrow> jsstring option \<Rightarrow> nat \<Rightarrow> scan" where
  "checkTerm kw searchTerm candidate bestMatch bestScore =
     (let normalizedTerm = normalizeText candidate in
      if normalizedTerm = searchTerm then Return kw
      else if containsHebrew candidate \<and>
              searchTerm \<in> set (normalizeHebrewSpelling normalizedTerm) then Return kw
      else if includes_str normalizedTerm searchTerm \<or> includes_str searchTerm normalizedTerm
      then (let score = max (length normalizedTerm) (length searchTerm) in
            if score > bestScore then Continue (Some kw) score
            else Continue bestMatch bestScore)
      else Continue bestMatch bestScore)"

fun forEach ::
  "('a \<Rightarrow> jsstring option \<Rightarrow> nat \<Rightarrow> scan) \<Rightarrow> 'a list \<Rightarrow> jsstring option \<Rightarrow> nat \<Rightarrow> scan" where
  "forEach body [] bestMatch bestScore = Continue bestMatch bestScore"
| "forEach body (x # xs) bestMatch bestScore =
     (case body x bestMatch bestScore of
        Return k \<Rightarrow> Return k
      | Continue bm bs \<Rightarrow> forEach body xs bm bs)"

text \<open>The body of the outer loop, for one entry \<^verbatim>\<open>[keyword, synonymList]\<close>.\<close>

definition scanKeyword ::
  "jsstring list \<Rightarrow> jsstring \<times> jsstring list \<Rightarrow> jsstring option \<Rightarrow> nat \<Rightarrow> scan" where
  "scanKeyword terms entry =
     (let kw = fst entry; allTerms = kw # snd entry in
      forEach (\<lambda>searchTerm. forEach (checkTerm kw searchTerm) allTerms) terms)"

definition scanTable :: "jsstring list \<Rightarrow> YotoSynonyms \<Rightarrow> scan" where
  "scanTable terms synonyms = forEach (scanKeyword terms) synonyms None 0"

definition findBestKeywordMatch :: "jsstring list \<Rightarrow> YotoSynonyms \<Rightarrow> jsstring option" where
  "findBestKeywordMatch terms synonyms =
     (case scanTable terms synonyms of
        Return k \<Rightarrow> Some k
      | Continue bestMatch bestScore \<Rightarrow> bestMatch)"

datatype confidence = Exact | Partial | NoMatch

record matchResult =
  keyword :: "jsstring option"
  iconId :: "jsvalue option"
  confidence :: confidence
  searchTerms :: "jsstring list"

text \<open>
  \<^verbatim>\<open>matchIcon\<close>, with the two tables that \<^verbatim>\<open>loadSynonyms(language)\<close> and
  \<^verbatim>\<open>loadIconMappings(language)\<close> hand it as arguments. The test \<^verbatim>\<open>!keyword\<close> holds
  for \<^verbatim>\<open>null\<close> and for the empty string.
\<close>

definition matchIcon :: "jsstring \<Rightarrow> YotoSynonyms \<Rightarrow> YotoIconMapping \<Rightarrow> matchResult" where
  "matchIcon trackTitle synonyms iconMappings =
     (let terms = extractKeywords trackTitle;
          noMatch = \<lparr>keyword = None, iconId = None, confidence = NoMatch, searchTerms = terms\<rparr>
      in case findBestKeywordMatch terms synonyms of
           None \<Rightarrow> noMatch
         | Some kw \<Rightarrow>
             if kw = [] then noMatch
             else \<lparr>keyword = Some kw,
                   iconId = lookupIcon iconMappings kw,
                   confidence = (if normalizeText kw \<in> set terms then Exact else Partial),
                   searchTerms = terms\<rparr>)"

section \<open>Coverage statistics\<close>

record iconMappingStats =
  totalKeywords :: nat
  mappedKeywords :: nat
  unmappedKeywords :: "jsstring list"

definition getIconMappingStats :: "YotoSynonyms \<Rightarrow> YotoIconMapping \<Rightarrow> iconMappingStats" where
  "getIconMappingStats synonyms iconMappings =
     \<lparr>totalKeywords = length (map fst synonyms),
      mappedKeywords = length (map fst iconMappings),
      unmappedKeywords =
        filter (\<lambda>kw. \<not> truthy (getProperty iconMappings kw)) (map fst synonyms)\<rparr>"

section \<open>Suggestions\<close>

text \<open>
  The relevance is computed in double precision: \<^verbatim>\<open>Math.min(a, b) / Math.max(a, b)\<close> is
  the double nearest to the quotient of the two lengths, and \<^verbatim>\<open>* 100\<close> gives the double
  nearest to the product. A finite double that is not negative is modelled by its
  mantissa \<open>m\<close> and a number \<open>k\<close> of binary places; its value is \<open>m / 2 ^ k\<close>.
\<close>

text \<open>The integer nearest to \<open>n / d\<close>, the even one of two that are equally near.\<close>

definition roundRatio :: "int \<Rightarrow> int \<Rightarrow> int" where
  "roundRatio n d =
     (let q = n div d; r = n mod d in
      if 2 * r < d then q
      else if d < 2 * r then q + 1
      else if even q then q else q + 1)"

text \<open>The number of binary places that brings \<open>n / d\<close> to a mantissa of 53 bits: the
  least \<open>k\<close> with \<open>2 ^ 52 \<le> n * 2 ^ k / d\<close>.\<close>

function scaleUp :: "int \<Rightarrow> int \<Rightarrow> nat" where
  "scaleUp n d = (if n \<le> 0 \<or> d * 2 ^ 52 \<le> n then 0 else Suc (scaleUp (2 * n) d))"
  by pat_completeness auto
termination
  by (relation "measure (\<lambda>(n, d). nat (d * 2 ^ 52 - n))") auto

declare scaleUp.simps [simp del]

text \<open>
  The double nearest to \<open>n / d\<close>, for a quotient below \<open>2 ^ 53\<close> that is zero or not
  below the least normal double. The quotients and products of the source are of this
  kind: they are at most 100, and the length of a string is below \<open>2 ^ 53\<close>.
\<close>

definition nearestDouble :: "int \<Rightarrow> int \<Rightarrow> int \<times> nat" where
  "nearestDouble n d = (let k = scaleUp n d in (roundRatio (n * 2 ^ k) d, k))"

definition doubleValue :: "int \<times> nat \<Rightarrow> rat" where
  "doubleValue x = of_int (fst x) / 2 ^ snd x"

text \<open>\<^verbatim>\<open>Math.max\<close> on numbers that may be \<^verbatim>\<open>NaN\<close>, which is \<open>None\<close> here: the maximum
  is \<^verbatim>\<open>NaN\<close> as soon as one argument is.\<close>

definition mathMax :: "rat option \<Rightarrow> rat option \<Rightarrow> rat option" where
  "mathMax a b =
     (case a of
        None \<Rightarrow> None
      | Some x \<Rightarrow> (case b of None \<Rightarrow> None | Some y \<Rightarrow> Some (max x y)))"

record suggestion =
  s_keyword :: jsstring
  s_iconId :: "jsvalue option"
  relevance :: rat

text \<open>\<^verbatim>\<open>(Math.min(a, b) / Math.max(a, b)) * 100\<close> for two lengths; zero divided by zero
  is \<^verbatim>\<open>NaN\<close>.\<close>

definition relevanceOfLengths :: "int \<Rightarrow> int \<Rightarrow> rat option" where
  "relevanceOfLengths a b =
     (let lo = min a b; hi = max a b in
      if hi = 0 then None
      else (let quotient = nearestDouble lo hi
            in Some (doubleValue (nearestDouble (fst quotient * 100) (2 ^ snd quotient)))))"

definition pairRelevance :: "jsstring \<Rightarrow> jsstring \<Rightarrow> rat option" where
  "pairRelevance normalizedTerm searchTerm =
     relevanceOfLengths (int (length normalizedTerm)) (int (length searchTerm))"

text \<open>The two inner loops for one entry, from \<^verbatim>\<open>let maxRelevance = 0\<close>.\<close>

definition maxRelevance :: "jsstring list \<Rightarrow> jsstring list \<Rightarrow> rat option" where
  "maxRelevance terms allTerms =
     fold (\<lambda>searchTerm.
        fold (\<lambda>candidate acc.
           (let normalizedTerm = normalizeText candidate in
            if includes_str normalizedTerm searchTerm \<or> includes_str searchTerm normalizedTerm
            then mathMax acc (pairRelevance normalizedTerm searchTerm)
            else acc)) allTerms) terms (Some 0)"

text \<open>The outer loop. The test \<^verbatim>\<open>maxRelevance > 0\<close> is false for \<^verbatim>\<open>NaN\<close>.\<close>

definition suggestionsOf ::
  "jsstring list \<Rightarrow> YotoSynonyms \<Rightarrow> YotoIconMapping \<Rightarrow> suggestion list" where
  "suggestionsOf terms synonyms iconMappings =
     concat (map (\<lambda>entry.
        (let kw = fst entry in
         case maxRelevance terms (kw # snd entry) of
           None \<Rightarrow> []
         | Some r \<Rightarrow>
             if r > 0
             then [\<lparr>s_keyword = kw, s_iconId = lookupIcon iconMappings kw, relevance = r\<rparr>]
             else [])) synonyms)"

text \<open>\<^verbatim>\<open>.sort((a, b) => b.relevance - a.relevance)\<close>: \<^verbatim>\<open>Array.prototype.sort\<close> is a
  stable sort, here by descending relevance; the difference of two finite doubles has the
  sign of their exact difference.\<close>

definition sortByRelevance :: "suggestion list \<Rightarrow> suggestion list" where
  "sortByRelevance suggestions = sort_key (\<lambda>s. - relevance s) suggestions"

text \<open>\<^verbatim>\<open>.slice(0, end)\<close> for an integer \<open>end\<close>: a negative \<open>end\<close> counts from the end
  of the array.\<close>

definition slice0 :: "'a list \<Rightarrow> int \<Rightarrow> 'a list" where
  "slice0 xs end = (if end < 0 then take (nat (int (length xs) + end)) xs else take (nat end) xs)"

definition suggestMatches ::
  "jsstring \<Rightarrow> int \<Rightarrow> YotoSynonyms \<Rightarrow> YotoIconMapping \<Rightarrow> suggestion list" where
  "suggestMatches trackTitle limit synonyms iconMappings =
     slice0 (sortByRelevance (suggestionsOf (extractKeywords trackTitle) synonyms iconMappings))
       limit"

section \<open>The mapping store\<close>

text \<open>
  The two module-level variables \<^verbatim>\<open>synonymsCache\<close> and \<^verbatim>\<open>iconMappingsCache\<close> are the
  state; each loader takes the state and returns the table with the new state. Reading a
  file and parsing it is a parameter: it gives the table, or nothing when
  \<^verbatim>\<open>readFileSync\<close> or \<^verbatim>\<open>JSON.parse\<close> throws.
\<close>

datatype language = English | Hebrew

datatype path = SynonymsEnglishJson | YotoIconsHebrewJson | YotoIconIdsJson language

record caches =
  synonymsCache :: "YotoSynonyms option"
  iconMappingsCache :: "YotoIconMapping option"

definition loadSynonyms ::
  "(path \<Rightarrow> YotoSynonyms option) \<Rightarrow> language \<Rightarrow> caches \<Rightarrow> YotoSynonyms \<times> caches" where
  "loadSynonyms readJson lang st =
     (case synonymsCache st of
        Some cached \<Rightarrow> (cached, st)
      | None \<Rightarrow>
          (let filePath = (if lang = Hebrew then YotoIconsHebrewJson else SynonymsEnglishJson) in
           case readJson filePath of
             Some content \<Rightarrow> (content, st\<lparr>synonymsCache := Some content\<rparr>)
           | None \<Rightarrow> ([], st\<lparr>synonymsCache := Some []\<rparr>)))"

definition loadIconMappings ::
  "(path \<Rightarrow> YotoIconMapping option) \<Rightarrow> language \<Rightarrow> caches \<Rightarrow> YotoIconMapping \<times> caches" where
  "loadIconMappings readJson lang st =
     (case readJson (YotoIconIdsJson lang) of
        Some content \<Rightarrow> (content, st\<lparr>iconMappingsCache := Some content\<rparr>)
      | None \<Rightarrow> ([], st\<lparr>iconMappingsCache := Some []\<rparr>))"

definition reloadMappings ::
  "(path \<Rightarrow> YotoIconMapping option) \<Rightarrow> caches \<Rightarrow> YotoIconMapping \<times> caches" where
  "reloadMappings readJson st = loadIconMappings readJson English (st\<lparr>iconMappingsCache := None\<rparr>)"

section \<open>Notions used in the statements and proofs\<close>

text \<open>A string in which every white-space code unit is a space that is not followed by
  white space: the fixed points of \<open>collapseSpaces\<close>.\<close>

fun singleSpaced :: "jsstring \<Rightarrow> bool" where
  "singleSpaced [] = True"
| "singleSpaced [c] = (isSpace c \<longrightarrow> c = 0x20)"
| "singleSpaced (c # d # s) = ((isSpace c \<longrightarrow> c = 0x20 \<and> \<not> isSpace d) \<and> singleSpaced (d # s))"

text \<open>The code units that \<open>replacePunctuation\<close> keeps.\<close>

definition kept :: "jschar \<Rightarrow> bool" where
  "kept c = (isWord c \<or> isSpace c \<or> isHebrew c)"

text \<open>
  The prefix rule in the words of the specification: a token that is the prefix
  followed by at least \<open>minRest\<close> more code units yields the token without the prefix,
  and any other token yields nothing.
\<close>

definition prefixRule :: "jsstring \<Rightarrow> nat \<Rightarrow> jsstring \<Rightarrow> jsstring list" where
  "prefixRule pre minRest word =
     (if take (length pre) word = pre \<and> length pre + minRest \<le> length word
      then [drop (length pre) word] else [])"

text \<open>An entry of the synonym table has an exact hit when the normalized keyword or a
  normalized synonym is one of the search terms.\<close>

definition hasExactHit :: "jsstring list \<Rightarrow> jsstring \<times> jsstring list \<Rightarrow> bool" where
  "hasExactHit terms entry =
     list_ex (\<lambda>candidate. normalizeText candidate \<in> set terms) (fst entry # snd entry)"

text \<open>
  The relevance of an entry in the words of the specification. One string contains the
  other; the relevances of all such pairs of a search term and a candidate, in the order
  of the two loops; and their maximum, which is zero when there is no such pair and
  \<^verbatim>\<open>NaN\<close> when one of them is.
\<close>

definition contains :: "jsstring \<Rightarrow> jsstring \<Rightarrow> bool" where
  "contains searchTerm candidate =
     (includes_str (normalizeText candidate) searchTerm \<or>
      includes_str searchTerm (normalizeText candidate))"

definition pairRelevances :: "jsstring list \<Rightarrow> jsstring list \<Rightarrow> rat option list" where
  "pairRelevances terms allTerms =
     map (\<lambda>p. pairRelevance (normalizeText (snd p)) (fst p))
       (filter (\<lambda>p. contains (fst p) (snd p)) (List.product terms allTerms))"

definition bestRelevance :: "jsstring list \<Rightarrow> jsstring \<times> jsstring list \<Rightarrow> rat option" where
  "bestRelevance terms entry =
     (let found = pairRelevances terms (fst entry # snd entry) in
      if None \<in> set found then None
      else Some (Max (insert 0 (set (List.map_filter (\<lambda>x. x) found)))))"

section \<open>Example inputs\<close>

text \<open>The strings \<^verbatim>\<open>dog\<close>, \<^verbatim>\<open>puppy\<close> and \<^verbatim>\<open>yoto:#1\<close>.\<close>

definition dog :: jsstring where "dog = [0x64, 0x6F, 0x67]"
definition puppy :: jsstring where "puppy = [0x70, 0x75, 0x70, 0x70, 0x79]"

definition icon1 :: jsstring where "icon1 = [0x79, 0x6F, 0x74, 0x6F, 0x3A, 0x23, 0x31]"

text \<open>
  The Hebrew strings, as code units: the keywords U+05DB U+05DC U+05D1 (dog) and
  U+05E6 U+05D9 U+05E4 U+05D5 U+05E8 (bird), the token that is the bird with the
  article U+05D4 in front, the title of the prefix-stripping example (three tokens, the
  first of which is that token), and the four-letter token U+05D5 U+05D4 U+05D3 U+05D1
  of the comment in \<^verbatim>\<open>stripHebrewPrefixes\<close>.
\<close>

definition kelev :: jsstring where "kelev = [0x5DB, 0x5DC, 0x5D1]"

definition tsipor :: jsstring where
  "tsipor = [0x5E6, 0x5D9, 0x5E4, 0x5D5, 0x5E8]"

definition ha_tsipor :: jsstring where
  "ha_tsipor = [0x5D4, 0x5E6, 0x5D9, 0x5E4, 0x5D5, 0x5E8]"

definition the_bird_title :: jsstring where
  "the_bird_title =
     [0x5D4, 0x5E6, 0x5D9, 0x5E4, 0x5D5, 0x5E8, 0x20,
      0x5E9, 0x5E9, 0x5DB, 0x5D7, 0x5D4, 0x20,
      0x5DC, 0x5E2, 0x5D5, 0x5E3]"

definition ve_ha_dov :: jsstring where
  "ve_ha_dov = [0x5D5, 0x5D4, 0x5D3, 0x5D1]"

text \<open>A synonym table with three entries, two of which tie on the title \<^verbatim>\<open>puppy\<close>.\<close>

definition threeEntries :: YotoSynonyms where
  "threeEntries = [(dog, [puppy @ dog]), (dog @ dog, [dog @ puppy]), (puppy, [])]"

text \<open>The strings \<^verbatim>\<open>abcdefg\<close> of length 7 and \<^verbatim>\<open>abcdefghijklmnopqrstuvwxy\<close> of
  length 25, the names \<^verbatim>\<open>constructor\<close> and \<^verbatim>\<open>cat\<close>, and the Hebrew strings
  U+05E2 U+05D5 U+05E3 and U+05DC U+05E2 U+05D5 U+05E3, the second of which is the last
  token of the title of the prefix-stripping example.\<close>

definition seven :: jsstring where
  "seven = [0x61, 0x62, 0x63, 0x64, 0x65, 0x66, 0x67]"
definition twentyfive :: jsstring where
  "twentyfive = [0x61, 0x62, 0x63, 0x64, 0x65, 0x66, 0x67, 0x68, 0x69, 0x6A, 0x6B, 0x6C, 0x6D,
     0x6E, 0x6F, 0x70, 0x71, 0x72, 0x73, 0x74, 0x75, 0x76, 0x77, 0x78, 0x79]"

definition constructorName :: jsstring where
  "constructorName = [0x63, 0x6F, 0x6E, 0x73, 0x74, 0x72, 0x75, 0x63, 0x74, 0x6F, 0x72]"
definition cat :: jsstring where "cat = [0x63, 0x61, 0x74]"
definition oph :: jsstring where "oph = [0x5E2, 0x5D5, 0x5E3]"
definition la_oph :: jsstring where "la_oph = [0x5DC, 0x5E2, 0x5D5, 0x5E3]"

text \<open>A disk on which the English and the Hebrew synonym files hold different tables,
  and the state of a process that has loaded nothing yet.\<close>

definition exampleFiles :: "path \<Rightarrow> YotoSynonyms option" where
  "exampleFiles p =
     (case p of
        SynonymsEnglishJson \<Rightarrow> Some [(dog, [])]
      | YotoIconsHebrewJson \<Rightarrow> Some [(kelev, [])]
      | YotoIconIdsJson l \<Rightarrow> None)"

definition emptyCaches :: caches where
  "emptyCaches = \<lparr>synonymsCache = None, iconMappingsCache = None\<rparr>"

section \<open>Evaluation\<close>

text \<open>The definitions that the simplifier unfolds to run the model on a concrete input.\<close>

lemmas char_defs = isSpace_def isWord_def isHebrew_def lowerUnit_def he_def vav_def
lemmas string_defs = toLowerCase_def trim_def replacePunctuation_def normalizeText_def substring_def
lemmas term_defs = stripHebrewPrefixes_def normalizeHebrewSpelling_def containsHebrew_def tokens_def
  variations_def extractKeywords_def
lemmas match_defs = objectPrototypeMembers_def getProperty_def truthy_def lookupIcon_def
  checkTerm_def scanKeyword_def scanTable_def
  findBestKeywordMatch_def matchIcon_def
lemmas eval_defs = char_defs string_defs term_defs match_defs Let_def

lemmas suggest_defs = mathMax_def pairRelevance_def maxRelevance_def suggestionsOf_def
  sortByRelevance_def slice0_def suggestMatches_def

section \<open>Normalization\<close>

lemma isSpace_space: "isSpace 0x20"
  by (simp add: isSpace_def)

lemma collapseSpaces_hd:
  "collapseSpaces (c # s) \<noteq> [] \<and> hd (collapseSpaces (c # s)) = (if isSpace c then 0x20 else c)"
  by (induction s arbitrary: c) auto

lemma singleSpaced_ConsI:
  "singleSpaced t \<Longrightarrow> t \<noteq> [] \<Longrightarrow> (isSpace c \<longrightarrow> c = 0x20 \<and> \<not> isSpace (hd t)) \<Longrightarrow> singleSpaced (c # t)"
  by (cases t) auto

lemma singleSpaced_collapseSpaces: "singleSpaced (collapseSpaces s)"
proof (induction s rule: collapseSpaces.induct)
  case (3 c d s)
  then show ?case
    using collapseSpaces_hd [of d s] by (auto intro!: singleSpaced_ConsI)
qed auto

lemma collapseSpaces_fixed: "singleSpaced s \<Longrightarrow> collapseSpaces s = s"
  by (induction s rule: collapseSpaces.induct) auto

lemma singleSpaced_Cons: "singleSpaced (c # s) \<Longrightarrow> singleSpaced s"
  by (cases s) auto

lemma singleSpaced_suffix: "singleSpaced (xs @ ys) \<Longrightarrow> singleSpaced ys"
  by (induction xs) (auto dest: singleSpaced_Cons)

lemma singleSpaced_prefix: "singleSpaced (xs @ ys) \<Longrightarrow> singleSpaced xs"
proof (induction xs rule: singleSpaced.induct)
  case (3 c d s)
  then show ?case by auto
next
  case (2 c)
  then show ?case by (cases ys) auto
qed auto

lemma trim_decomp: "\<exists>pre post. s = pre @ trim s @ post"
proof -
  let ?d = "dropWhile isSpace s"
  have "s = takeWhile isSpace s @ ?d" by simp
  moreover have "rev ?d = takeWhile isSpace (rev ?d) @ dropWhile isSpace (rev ?d)" by simp
  then have "?d = rev (dropWhile isSpace (rev ?d)) @ rev (takeWhile isSpace (rev ?d))"
    by (metis rev_append rev_rev_ident)
  ultimately have "s = takeWhile isSpace s @ trim s @ rev (takeWhile isSpace (rev ?d))"
    by (simp add: trim_def)
  then show ?thesis by blast
qed

lemma singleSpaced_trim: "singleSpaced s \<Longrightarrow> singleSpaced (trim s)"
  by (metis trim_decomp singleSpaced_prefix singleSpaced_suffix)

lemma set_trim: "set (trim s) \<subseteq> set s"
  by (metis trim_decomp Un_upper1 Un_upper2 set_append subset_trans)

lemma dropWhile_snoc: "\<not> P x \<Longrightarrow> dropWhile P (zs @ [x]) = dropWhile P zs @ [x]"
  by (induction zs) auto

lemma trim_trim: "trim (trim s) = trim s"
proof (cases "dropWhile isSpace s")
  case Nil
  have t: "trim s = []" unfolding trim_def Nil by simp
  show ?thesis unfolding t by (simp add: trim_def)
next
  case (Cons x ys)
  then have x: "\<not> isSpace x" by (metis hd_dropWhile list.sel(1) list.distinct(1))
  have t: "trim s = x # rev (dropWhile isSpace (rev ys))"
    using Cons x by (simp add: trim_def dropWhile_snoc)
  have "trim (trim s) = rev (dropWhile isSpace (rev (dropWhile isSpace (trim s))))"
    by (simp only: trim_def [of "trim s"])
  also have "\<dots> = rev (dropWhile isSpace (rev (x # rev (dropWhile isSpace (rev ys)))))"
    using x by (simp add: t)
  also have "\<dots> = x # rev (dropWhile isSpace (dropWhile isSpace (rev ys)))"
    using x by (simp add: dropWhile_snoc)
  also have "\<dots> = trim s"
    by (simp add: t dropWhile_idem)
  finally show ?thesis .
qed

lemma lowerUnit_toLowerCase: "c \<in> set (toLowerCase s) \<Longrightarrow> lowerUnit c = [c]"
  by (auto simp: toLowerCase_def lowerUnit_def split: if_splits)

lemma toLowerCase_fixed: "(\<And>c. c \<in> set s \<Longrightarrow> lowerUnit c = [c]) \<Longrightarrow> toLowerCase s = s"
  by (induction s) (auto simp: toLowerCase_def)

lemma replacePunctuation_fixed: "(\<And>c. c \<in> set s \<Longrightarrow> kept c) \<Longrightarrow> replacePunctuation s = s"
  by (induction s) (auto simp: replacePunctuation_def kept_def)

lemma set_collapseSpaces: "set (collapseSpaces s) \<subseteq> insert 0x20 (set s)"
  by (induction s rule: collapseSpaces.induct) auto

lemma lowerUnit_space: "lowerUnit 0x20 = [0x20]"
  by (simp add: lowerUnit_def)

lemma kept_space: "kept 0x20"
  by (simp add: kept_def isSpace_def)

lemma normalizeText_chars:
  assumes "c \<in> set (normalizeText s)"
  shows "lowerUnit c = [c] \<and> kept c"
proof -
  let ?a = "trim (toLowerCase s)"
  let ?b = "replacePunctuation ?a"
  have a: "lowerUnit d = [d]" if "d \<in> set ?a" for d
    using that set_trim lowerUnit_toLowerCase by blast
  have b: "lowerUnit d = [d] \<and> kept d" if "d \<in> set ?b" for d
    using that a by (auto simp: replacePunctuation_def kept_def lowerUnit_space isSpace_space)
  have "c \<in> set (collapseSpaces ?b)"
    using assms set_trim unfolding normalizeText_def by blast
  then have "c = 0x20 \<or> c \<in> set ?b" using set_collapseSpaces by blast
  then show ?thesis using b lowerUnit_space kept_space by auto
qed

lemma singleSpaced_normalizeText: "singleSpaced (normalizeText s)"
  unfolding normalizeText_def by (rule singleSpaced_trim) (rule singleSpaced_collapseSpaces)

lemma trim_normalizeText: "trim (normalizeText s) = normalizeText s"
  unfolding normalizeText_def by (rule trim_trim)

text \<open>
  Claim C8. Normalization is idempotent: for every string \<open>s\<close>, normalizing the
  normalized string gives the normalized string again.
\<close>

theorem normalizeText_idempotent: "normalizeText (normalizeText s) = normalizeText s"
proof -
  let ?u = "normalizeText s"
  have 1: "toLowerCase ?u = ?u"
    by (rule toLowerCase_fixed) (simp add: normalizeText_chars)
  have 2: "replacePunctuation ?u = ?u"
    by (rule replacePunctuation_fixed) (simp add: normalizeText_chars)
  have 3: "collapseSpaces ?u = ?u"
    by (rule collapseSpaces_fixed) (rule singleSpaced_normalizeText)
  have "normalizeText ?u = trim (collapseSpaces (replacePunctuation (trim (toLowerCase ?u))))"
    by (simp only: normalizeText_def)
  also have "\<dots> = ?u"
    by (simp only: 1 2 3 trim_normalizeText)
  finally show ?thesis .
qed

section \<open>Prefix stripping\<close>

lemma startsWith_take: "startsWith s p = (take (length p) s = p)"
  by (induction s p rule: startsWith.induct) auto

lemma stripHebrewPrefixes_prefixRule:
  "stripHebrewPrefixes word =
     word # prefixRule [he] 2 word @ prefixRule [vav] 2 word @ prefixRule [vav, he] 2 word"
  by (auto simp: stripHebrewPrefixes_def prefixRule_def startsWith_take substring_def numeral_2_eq_2)

lemma stripHebrewPrefixes_no_Hebrew:
  "\<not> containsHebrew word \<Longrightarrow> stripHebrewPrefixes word = [word]"
  by (cases word) (auto simp: stripHebrewPrefixes_def containsHebrew_def he_def vav_def isHebrew_def)

lemma variations_subset: "set (stripHebrewPrefixes word) \<subseteq> set (variations word)"
  by (cases "containsHebrew word") (auto simp: variations_def stripHebrewPrefixes_no_Hebrew)

lemma extractKeywords_variants:
  assumes "word \<in> set (tokens (normalizeText text))"
  shows "set (stripHebrewPrefixes word) \<subseteq> set (extractKeywords text)"
  using assms variations_subset by (fastforce simp: extractKeywords_def Let_def)

text \<open>
  Claim C4, as amended. For every token, \<open>stripHebrewPrefixes\<close> gives the token itself,
  then the token without its first code unit when it starts with the article U+05D4
  followed by at least 2 more code units, then the token without its first code unit when
  it starts with the conjunction U+05D5 followed by at least 2 more code units, then the
  token without its first two code units when it starts with U+05D5 U+05D4 followed by at
  least 2 more code units (the source tests \<^verbatim>\<open>word.length > 3\<close>), and nothing else: the
  three checks are independent and each gives at most one variant, so the result has at
  most 4 elements. Every variant of a token of the title is among the extracted search
  terms.
\<close>

theorem prefix_stripping:
  "stripHebrewPrefixes word =
     word # prefixRule [he] 2 word @ prefixRule [vav] 2 word @ prefixRule [vav, he] 2 word \<and>
   length (stripHebrewPrefixes word) \<le> 4 \<and>
   (word \<in> set (tokens (normalizeText text)) \<longrightarrow>
      set (stripHebrewPrefixes word) \<subseteq> set (extractKeywords text))"
proof -
  have "length (stripHebrewPrefixes word) \<le> 4"
    by (simp add: stripHebrewPrefixes_def)
  then show ?thesis
    using stripHebrewPrefixes_prefixRule [of word] extractKeywords_variants [of word "text"]
    by blast
qed

theorem prefix_stripping_witness:
  "ha_tsipor \<in> set (tokens (normalizeText the_bird_title)) \<and>
   stripHebrewPrefixes ha_tsipor = [ha_tsipor, tsipor] \<and>
   tsipor \<in> set (extractKeywords the_bird_title)"
proof -
  have 1: "ha_tsipor \<in> set (tokens (normalizeText the_bird_title))"
    by (simp add: ha_tsipor_def the_bird_title_def eval_defs)
  have 2: "stripHebrewPrefixes ha_tsipor = [ha_tsipor, tsipor]"
    by (simp add: ha_tsipor_def tsipor_def eval_defs)
  show ?thesis
    using prefix_stripping [of ha_tsipor the_bird_title] 1 2 by auto
qed

text \<open>
  The claim as it was stated asks for at least 3 more code units after the two-letter
  prefix. The four-letter token of the source's own comment has only 2, and the source
  strips it all the same.
\<close>

theorem prefix_stripping_two_letter:
  "stripHebrewPrefixes ve_ha_dov = [ve_ha_dov, drop 1 ve_ha_dov, drop 2 ve_ha_dov] \<and>
   length (drop 2 ve_ha_dov) = 2 \<and>
   stripHebrewPrefixes ve_ha_dov \<noteq>
     ve_ha_dov # prefixRule [he] 2 ve_ha_dov @ prefixRule [vav] 2 ve_ha_dov @
       prefixRule [vav, he] 3 ve_ha_dov"
  by (simp add: ve_ha_dov_def eval_defs prefixRule_def)

section \<open>The table scan\<close>

text \<open>Whether a piece of the loop returns early does not depend on the best match so
  far; it returns at the first element that has an exact hit.\<close>

lemma checkTerm_Return:
  "(checkTerm kw searchTerm candidate bm bs = Return k) = (normalizeText candidate = searchTerm \<and> k = kw)"
  by (auto simp: checkTerm_def Let_def normalizeHebrewSpelling_def)

lemma forEach_Return:
  assumes "\<And>x bm bs k. (body x bm bs = Return k) = (hit x \<and> k = ret x)"
  shows "(forEach body xs bm bs = Return k) = (\<exists>x. find hit xs = Some x \<and> k = ret x)"
proof (induction xs arbitrary: bm bs)
  case Nil
  then show ?case by simp
next
  case (Cons x xs)
  show ?case
  proof (cases "body x bm bs")
    case (Return k')
    then have "hit x" "k' = ret x" using assms by auto
    then show ?thesis using Return by auto
  next
    case (Continue bm' bs')
    then have "\<not> hit x" using assms [of x bm bs "ret x"] by auto
    then show ?thesis using Continue Cons.IH by simp
  qed
qed

lemma find_Some_ex: "(\<exists>x. find P xs = Some x) = list_ex P xs"
  by (induction xs) auto

lemma forEach_checkTerm:
  "(forEach (checkTerm kw searchTerm) allTerms bm bs = Return k) =
     (list_ex (\<lambda>candidate. normalizeText candidate = searchTerm) allTerms \<and> k = kw)"
proof -
  have "(forEach (checkTerm kw searchTerm) allTerms bm bs = Return k) =
        (\<exists>x. find (\<lambda>candidate. normalizeText candidate = searchTerm) allTerms = Some x \<and> k = kw)"
    by (rule forEach_Return) (rule checkTerm_Return)
  then show ?thesis
    using find_Some_ex [of "\<lambda>candidate. normalizeText candidate = searchTerm" allTerms] by auto
qed

lemma scanKeyword_Return:
  "(scanKeyword terms entry bm bs = Return k) = (hasExactHit terms entry \<and> k = fst entry)"
proof -
  let ?hit = "\<lambda>searchTerm. list_ex (\<lambda>candidate. normalizeText candidate = searchTerm) (fst entry # snd entry)"
  have "(scanKeyword terms entry bm bs = Return k) =
        (\<exists>x. find ?hit terms = Some x \<and> k = fst entry)"
    unfolding scanKeyword_def Let_def by (rule forEach_Return) (rule forEach_checkTerm)
  also have "\<dots> = (list_ex ?hit terms \<and> k = fst entry)"
    using find_Some_ex [of ?hit terms] by auto
  also have "list_ex ?hit terms = hasExactHit terms entry"
    unfolding hasExactHit_def list_ex_iff by auto
  finally show ?thesis .
qed

lemma scanTable_Return:
  "(scanTable terms synonyms = Return k) =
     (\<exists>entry. find (hasExactHit terms) synonyms = Some entry \<and> k = fst entry)"
  unfolding scanTable_def by (rule forEach_Return) (rule scanKeyword_Return)

lemma findBestKeywordMatch_exact:
  "find (hasExactHit terms) synonyms = Some entry \<Longrightarrow>
     findBestKeywordMatch terms synonyms = Some (fst entry)"
  using scanTable_Return [of terms synonyms "fst entry"]
  by (simp add: findBestKeywordMatch_def)

lemma map_of_fst: "map_of m k = Some v \<Longrightarrow> k \<in> fst ` set m"
  by (metis map_of_SomeD fst_conv image_eqI)

lemma find_first:
  "\<not> list_ex P xs \<Longrightarrow> P y \<Longrightarrow> find P (xs @ y # ys) = Some y"
  by (induction xs) auto

lemma tsipor_hit: "hasExactHit (extractKeywords the_bird_title) (tsipor, syns)"
proof -
  have "normalizeText tsipor \<in> set (extractKeywords the_bird_title)"
    by (simp add: tsipor_def the_bird_title_def eval_defs)
  then show ?thesis by (simp add: hasExactHit_def)
qed

text \<open>
  Claim C1 says that an empty title gives the confidence \<^verbatim>\<open>none\<close> for every synonym
  table. The only search term of the empty title is the empty string, which every string
  includes; with the one-keyword table \<^verbatim>\<open>{dog: []}\<close> the scan takes \<^verbatim>\<open>dog\<close> as the best
  match with score 3, and the result is the keyword \<^verbatim>\<open>dog\<close> with confidence
  \<^verbatim>\<open>partial\<close>.
\<close>

theorem matchIcon_empty_title:
  "matchIcon [] [(dog, [])] [] =
     \<lparr>keyword = Some dog, iconId = None, confidence = Partial, searchTerms = [[]]\<rparr>"
  by (simp add: dog_def eval_defs)

text \<open>
  Claim C2 says that the result has an icon identifier only if its keyword is present in
  the icon mapping. The keyword \<^verbatim>\<open>constructor\<close> is matched exactly by the title
  \<^verbatim>\<open>constructor\<close>; with the empty icon mapping the read \<^verbatim>\<open>iconMappings[keyword]\<close> finds
  the member of \<^verbatim>\<open>Object.prototype\<close>, which is truthy, and the result carries it as its
  icon identifier.
\<close>

theorem matchIcon_inherited_property:
  "matchIcon constructorName [(constructorName, [])] [] =
     \<lparr>keyword = Some constructorName, iconId = Some (PrototypeMember constructorName),
      confidence = Exact,
      searchTerms = [constructorName, constructorName, constructorName]\<rparr>"
  by (simp add: constructorName_def eval_defs)

text \<open>What holds of the icon identifier in general, and the second half of the claim,
  which holds as stated.\<close>

lemma matchIcon_iconId_cases:
  assumes "iconId (matchIcon trackTitle synonyms iconMappings) = Some v"
  shows "\<exists>kw. keyword (matchIcon trackTitle synonyms iconMappings) = Some kw \<and>
           ((\<exists>s. v = Str s \<and> s \<noteq> [] \<and> map_of iconMappings kw = Some s) \<or>
            (v = PrototypeMember kw \<and> kw \<in> set objectPrototypeMembers \<and>
             map_of iconMappings kw = None))"
  using assms
  by (auto simp: matchIcon_def Let_def lookupIcon_def getProperty_def truthy_def
           split: option.splits if_splits jsvalue.splits)

lemma matchIcon_exact_only_if:
  assumes "confidence (matchIcon trackTitle synonyms iconMappings) = Exact"
  shows "\<exists>kw. keyword (matchIcon trackTitle synonyms iconMappings) = Some kw \<and>
           normalizeText kw \<in> set (searchTerms (matchIcon trackTitle synonyms iconMappings))"
  using assms
  by (auto simp: matchIcon_def Let_def split: option.splits if_splits)

text \<open>
  Claim C3, as amended. For every title and synonym table, if the search terms of the
  title contain the normalized keyword or a normalized synonym of some entry, then the
  scan returns early, \<open>findBestKeywordMatch\<close> gives the keyword of the first entry in
  table order that has such an exact hit, whatever containment scores the other entries
  reach, and \<open>matchIcon\<close> returns that keyword unless it is the empty string.
\<close>

theorem exact_match_priority:
  assumes "list_ex (hasExactHit (extractKeywords trackTitle)) synonyms"
  shows "\<exists>entry. find (hasExactHit (extractKeywords trackTitle)) synonyms = Some entry \<and>
           scanTable (extractKeywords trackTitle) synonyms = Return (fst entry) \<and>
           findBestKeywordMatch (extractKeywords trackTitle) synonyms = Some (fst entry) \<and>
           (fst entry \<noteq> [] \<longrightarrow>
              keyword (matchIcon trackTitle synonyms iconMappings) = Some (fst entry))"
proof -
  obtain entry where e: "find (hasExactHit (extractKeywords trackTitle)) synonyms = Some entry"
    using assms find_Some_ex [of "hasExactHit (extractKeywords trackTitle)" synonyms] by auto
  then have s: "scanTable (extractKeywords trackTitle) synonyms = Return (fst entry)"
    by (simp add: scanTable_Return)
  have f: "findBestKeywordMatch (extractKeywords trackTitle) synonyms = Some (fst entry)"
    using e by (rule findBestKeywordMatch_exact)
  then have "fst entry \<noteq> [] \<longrightarrow>
      keyword (matchIcon trackTitle synonyms iconMappings) = Some (fst entry)"
    by (simp add: matchIcon_def Let_def)
  then show ?thesis
    using e s f by blast
qed

text \<open>The title \<^verbatim>\<open>dog\<close>: the first entry contains it with the longer score 8, the second
  has it as a synonym and wins, the third has it as its keyword and comes too late.\<close>

theorem exact_match_priority_witness:
  "list_ex (hasExactHit (extractKeywords dog)) [(dog @ puppy, []), (puppy, [dog]), (dog, [])] \<and>
   findBestKeywordMatch (extractKeywords dog) [(dog @ puppy, []), (puppy, [dog]), (dog, [])] = Some puppy \<and>
   keyword (matchIcon dog [(dog @ puppy, []), (puppy, [dog]), (dog, [])] []) = Some puppy"
proof -
  have h: "list_ex (hasExactHit (extractKeywords dog)) [(dog @ puppy, []), (puppy, [dog]), (dog, [])]"
    by (simp add: dog_def puppy_def eval_defs hasExactHit_def)
  have f: "find (hasExactHit (extractKeywords dog)) [(dog @ puppy, []), (puppy, [dog]), (dog, [])]
            = Some (puppy, [dog])"
    by (simp add: dog_def puppy_def eval_defs hasExactHit_def)
  have p: "puppy \<noteq> []" by (simp add: puppy_def)
  show ?thesis
    using exact_match_priority [OF h, of "[]"] h f p by auto
qed

text \<open>
  The claim as it was stated promises the keyword from \<open>matchIcon\<close> in every table. In
  the table \<^verbatim>\<open>{"": ["dog"]}\<close> the title \<^verbatim>\<open>dog\<close> hits the synonym exactly, the scan returns
  the empty keyword, and the test \<^verbatim>\<open>!keyword\<close> of \<open>matchIcon\<close> turns it into no match.
\<close>

theorem exact_match_empty_keyword:
  "list_ex (hasExactHit (extractKeywords dog)) [([], [dog])] \<and>
   findBestKeywordMatch (extractKeywords dog) [([], [dog])] = Some [] \<and>
   keyword (matchIcon dog [([], [dog])] []) = None"
  by (simp add: dog_def eval_defs hasExactHit_def)

text \<open>
  Claim C9, as amended. The title of the prefix-stripping example, matched against a
  synonym table that contains the bird keyword (with any synonym list, so also one that
  holds the keyword itself) and in which no entry before the bird entry has an exact hit
  on this title, gives that keyword with the confidence \<^verbatim>\<open>exact\<close>: the first token of
  the title is the keyword with the article in front, and stripping the article leaves
  the keyword among the search terms. The table may hold any entries after the bird
  entry.
\<close>

theorem bird_example:
  assumes "\<not> list_ex (hasExactHit (extractKeywords the_bird_title)) before"
  shows "matchIcon the_bird_title (before @ (tsipor, syns) # rest) iconMappings =
           \<lparr>keyword = Some tsipor, iconId = lookupIcon iconMappings tsipor,
            confidence = Exact, searchTerms = extractKeywords the_bird_title\<rparr> \<and>
         ha_tsipor \<in> set (tokens (normalizeText the_bird_title)) \<and>
         tsipor \<in> set (stripHebrewPrefixes ha_tsipor)"
proof -
  have "find (hasExactHit (extractKeywords the_bird_title)) (before @ (tsipor, syns) # rest)
          = Some (tsipor, syns)"
    using assms tsipor_hit by (rule find_first)
  then have f: "findBestKeywordMatch (extractKeywords the_bird_title)
                  (before @ (tsipor, syns) # rest) = Some tsipor"
    using findBestKeywordMatch_exact by fastforce
  have n: "normalizeText tsipor \<in> set (extractKeywords the_bird_title)"
    by (simp add: tsipor_def the_bird_title_def eval_defs)
  have e: "tsipor \<noteq> []" by (simp add: tsipor_def)
  have 1: "ha_tsipor \<in> set (tokens (normalizeText the_bird_title))"
    by (simp add: ha_tsipor_def the_bird_title_def eval_defs)
  have 2: "tsipor \<in> set (stripHebrewPrefixes ha_tsipor)"
    by (simp add: ha_tsipor_def tsipor_def eval_defs)
  show ?thesis
    using f n e 1 2 by (simp add: matchIcon_def Let_def)
qed

theorem bird_example_witness:
  "\<not> list_ex (hasExactHit (extractKeywords the_bird_title)) [(dog, [puppy])] \<and>
   matchIcon the_bird_title [(dog, [puppy]), (tsipor, [tsipor])] [] =
     \<lparr>keyword = Some tsipor, iconId = None,
      confidence = Exact, searchTerms = extractKeywords the_bird_title\<rparr> \<and>
   matchIcon the_bird_title [(tsipor, [tsipor])] [(tsipor, icon1)] =
     \<lparr>keyword = Some tsipor, iconId = Some (Str icon1),
      confidence = Exact, searchTerms = extractKeywords the_bird_title\<rparr>"
proof -
  have h: "\<not> list_ex (hasExactHit (extractKeywords the_bird_title)) [(dog, [puppy])]"
    by (simp add: the_bird_title_def dog_def puppy_def eval_defs hasExactHit_def)
  have h0: "\<not> list_ex (hasExactHit (extractKeywords the_bird_title)) []"
    by simp
  have l: "lookupIcon [(tsipor, icon1)] tsipor = Some (Str icon1)"
    by (simp add: lookupIcon_def getProperty_def truthy_def icon1_def)
  show ?thesis
    using bird_example [OF h, of "[tsipor]" "[]" "[]"]
      bird_example [OF h0, of "[tsipor]" "[]" "[(tsipor, icon1)]"] h l
    by (simp add: match_defs tsipor_def)
qed

text \<open>
  The claim as it was stated holds of every table that contains the bird entry. In a
  table whose first entry has the last token of the title as a synonym, the scan returns
  the keyword of that entry, with the confidence \<^verbatim>\<open>partial\<close>.
\<close>

theorem bird_example_earlier_hit:
  "matchIcon the_bird_title [(oph, [la_oph]), (tsipor, [tsipor])] [] =
     \<lparr>keyword = Some oph, iconId = None, confidence = Partial,
      searchTerms = extractKeywords the_bird_title\<rparr>"
  by (simp add: the_bird_title_def oph_def la_oph_def tsipor_def eval_defs)

text \<open>
  Claim C10. There are a title, a synonym table and an icon mapping for which the scan
  returns the keyword early, because a search term equals a normalized synonym of it,
  and \<open>matchIcon\<close> reports the confidence \<^verbatim>\<open>partial\<close>. Whenever \<open>matchIcon\<close> returns a
  keyword, the confidence is \<^verbatim>\<open>exact\<close> if the normalized keyword itself is among the
  search terms and \<^verbatim>\<open>partial\<close> otherwise, however the keyword was found.
\<close>

theorem confidence_tier:
  "(\<exists>trackTitle synonyms iconMappings kw syns syn.
       (kw, syns) \<in> set synonyms \<and> syn \<in> set syns \<and>
       normalizeText syn \<in> set (extractKeywords trackTitle) \<and>
       scanTable (extractKeywords trackTitle) synonyms = Return kw \<and>
       keyword (matchIcon trackTitle synonyms iconMappings) = Some kw \<and>
       confidence (matchIcon trackTitle synonyms iconMappings) = Partial) \<and>
   (\<forall>trackTitle synonyms iconMappings kw.
       keyword (matchIcon trackTitle synonyms iconMappings) = Some kw \<longrightarrow>
       confidence (matchIcon trackTitle synonyms iconMappings) =
         (if normalizeText kw \<in> set (extractKeywords trackTitle) then Exact else Partial))"
proof (intro conjI allI impI)
  have "(dog, [puppy]) \<in> set [(dog, [puppy])] \<and> puppy \<in> set [puppy] \<and>
       normalizeText puppy \<in> set (extractKeywords puppy) \<and>
       scanTable (extractKeywords puppy) [(dog, [puppy])] = Return dog \<and>
       keyword (matchIcon puppy [(dog, [puppy])] []) = Some dog \<and>
       confidence (matchIcon puppy [(dog, [puppy])] []) = Partial"
    by (simp add: dog_def puppy_def eval_defs)
  then show "\<exists>trackTitle synonyms iconMappings kw syns syn.
       (kw, syns) \<in> set synonyms \<and> syn \<in> set syns \<and>
       normalizeText syn \<in> set (extractKeywords trackTitle) \<and>
       scanTable (extractKeywords trackTitle) synonyms = Return kw \<and>
       keyword (matchIcon trackTitle synonyms iconMappings) = Some kw \<and>
       confidence (matchIcon trackTitle synonyms iconMappings) = Partial"
    by blast
next
  fix trackTitle synonyms iconMappings kw
  assume "keyword (matchIcon trackTitle synonyms iconMappings) = Some kw"
  then show "confidence (matchIcon trackTitle synonyms iconMappings) =
         (if normalizeText kw \<in> set (extractKeywords trackTitle) then Exact else Partial)"
    by (auto simp: matchIcon_def Let_def split: option.splits if_splits)
qed

theorem confidence_tier_witness:
  "keyword (matchIcon puppy [(dog, [puppy])] []) = Some dog \<and>
   normalizeText dog \<notin> set (extractKeywords puppy) \<and>
   confidence (matchIcon puppy [(dog, [puppy])] []) = Partial"
proof -
  have 1: "keyword (matchIcon puppy [(dog, [puppy])] []) = Some dog"
    by (simp add: dog_def puppy_def eval_defs)
  have 2: "normalizeText dog \<notin> set (extractKeywords puppy)"
    by (simp add: dog_def puppy_def eval_defs)
  show ?thesis
    using confidence_tier 1 2 by auto
qed

section \<open>The mapping store\<close>

text \<open>After any call of \<open>loadSynonyms\<close> the cache is set, and every later call returns the
  cached table whatever language it names. \<open>loadIconMappings\<close> never reads its cache.\<close>

lemma loadSynonyms_cached:
  "fst (loadSynonyms readJson lang2 (snd (loadSynonyms readJson lang1 st))) =
   fst (loadSynonyms readJson lang1 st)"
  by (auto simp: loadSynonyms_def Let_def split: option.splits)

lemma loadIconMappings_rereads:
  "fst (loadIconMappings readJson lang st) =
     (case readJson (YotoIconIdsJson lang) of Some content \<Rightarrow> content | None \<Rightarrow> [])"
  by (simp add: loadIconMappings_def split: option.splits)

text \<open>
  Claim C5 says that \<open>loadSynonyms\<close> called for Hebrew after a call for English returns
  the Hebrew table. On the example disk the second call returns the English table
  \<^verbatim>\<open>{dog: []}\<close> from the cache; a process that starts with the Hebrew call gets the
  Hebrew table.
\<close>

theorem loadSynonyms_Hebrew_after_English:
  "fst (loadSynonyms exampleFiles Hebrew (snd (loadSynonyms exampleFiles English emptyCaches)))
     = [(dog, [])] \<and>
   fst (loadSynonyms exampleFiles Hebrew emptyCaches) = [(kelev, [])]"
  by (simp add: loadSynonyms_def exampleFiles_def emptyCaches_def)

section \<open>Coverage statistics\<close>

text \<open>
  Claim C6 says that \<^verbatim>\<open>mappedKeywords\<close> counts the keywords that have a non-empty value
  in the icon mapping and that \<^verbatim>\<open>unmappedKeywords\<close> lists the keywords absent from it.
  With the keyword \<^verbatim>\<open>dog\<close> and the icon mapping \<^verbatim>\<open>{cat: "yoto:#1"}\<close> no keyword is
  mapped, and the source counts 1 mapped keyword next to the unmapped \<^verbatim>\<open>dog\<close>, since
  it counts the keys of the icon mapping. With the keywords \<^verbatim>\<open>constructor\<close> and
  \<^verbatim>\<open>dog\<close> and the empty icon mapping both are absent, and the source lists only
  \<^verbatim>\<open>dog\<close>, since the read of \<^verbatim>\<open>constructor\<close> finds the member of
  \<^verbatim>\<open>Object.prototype\<close>.
\<close>

theorem getIconMappingStats_not_a_partition:
  "getIconMappingStats [(dog, [])] [(cat, icon1)] =
     \<lparr>totalKeywords = 1, mappedKeywords = 1, unmappedKeywords = [dog]\<rparr> \<and>
   getIconMappingStats [(constructorName, []), (dog, [])] [] =
     \<lparr>totalKeywords = 2, mappedKeywords = 0, unmappedKeywords = [dog]\<rparr>"
  by (simp add: getIconMappingStats_def dog_def cat_def icon1_def constructorName_def
      getProperty_def truthy_def objectPrototypeMembers_def)

section \<open>Double-precision arithmetic\<close>

text \<open>The mantissa that \<open>nearestDouble\<close> computes has 53 bits and is an integer nearest
  to the scaled quotient; rounding does not pass an integer bound.\<close>

lemma roundRatio_nearest:
  assumes "0 < d" and "0 \<le> n"
  shows "2 * \<bar>roundRatio n d * d - n\<bar> \<le> d"
proof -
  define q r where "q = n div d" and "r = n mod d"
  have n: "n = q * d + r" by (simp add: q_def r_def)
  have r: "0 \<le> r" "r < d" using assms by (simp_all add: r_def)
  have "roundRatio n d = (if 2 * r < d then q else if d < 2 * r then q + 1
                          else if even q then q else q + 1)"
    by (simp add: roundRatio_def Let_def q_def r_def)
  then show ?thesis
    using r unfolding n by (auto simp: algebra_simps split: if_splits)
qed

lemma scaleUp_normal:
  assumes "0 < n" and "0 < d"
  shows "d * 2 ^ 52 \<le> n * 2 ^ scaleUp n d \<and>
         (n < d * 2 ^ 52 \<longrightarrow> n * 2 ^ scaleUp n d < d * 2 ^ 53)"
  using assms
proof (induction n d rule: scaleUp.induct)
  case (1 n d)
  show ?case
  proof (cases "d * 2 ^ 52 \<le> n")
    case True
    then show ?thesis using "1.prems" by (simp add: scaleUp.simps)
  next
    case False
    then have s: "scaleUp n d = Suc (scaleUp (2 * n) d)"
      using "1.prems" by (simp add: scaleUp.simps)
    have ih: "d * 2 ^ 52 \<le> 2 * n * 2 ^ scaleUp (2 * n) d \<and>
         (2 * n < d * 2 ^ 52 \<longrightarrow> 2 * n * 2 ^ scaleUp (2 * n) d < d * 2 ^ 53)"
      using "1.IH" False "1.prems" by simp
    show ?thesis
    proof (cases "2 * n < d * 2 ^ 52")
      case True
      then show ?thesis using ih s by (simp add: mult.assoc)
    next
      case f: False
      then have "scaleUp (2 * n) d = 0" by (simp add: scaleUp.simps)
      then show ?thesis using s f False by simp
    qed
  qed
qed

lemma roundRatio_le:
  assumes "0 < d" and "n \<le> j * d"
  shows "roundRatio n d \<le> j"
proof -
  have q: "n div d \<le> j"
    using assms by (metis div_mult_self_is_m zdiv_mono1 nonzero_mult_div_cancel_right less_imp_neq not_less_iff_gr_or_eq)
  show ?thesis
  proof (cases "n div d = j")
    case True
    have "n = d * (n div d) + n mod d" by simp
    then have "n mod d \<le> 0" using assms True
      by (metis add_le_same_cancel1 mult.commute)
    moreover have "0 \<le> n mod d" using assms by simp
    ultimately have "n mod d = 0" by simp
    then show ?thesis using True assms by (simp add: roundRatio_def Let_def)
  next
    case False
    then have "n div d + 1 \<le> j" using q by simp
    then show ?thesis by (auto simp: roundRatio_def Let_def)
  qed
qed

lemma relevanceOfLengths_le:
  assumes "relevanceOfLengths a b = Some x" and "0 \<le> a" and "0 \<le> b"
  shows "x \<le> 100"
proof -
  define lo hi where "lo = min a b" and "hi = max a b"
  have hi: "0 < hi" and lo: "lo \<le> hi"
    using assms by (auto simp: relevanceOfLengths_def Let_def lo_def hi_def split: if_splits)
  define k where "k = scaleUp lo hi"
  define m where "m = roundRatio (lo * 2 ^ k) hi"
  define k' where "k' = scaleUp (m * 100) (2 ^ k)"
  define m' where "m' = roundRatio (m * 100 * 2 ^ k') (2 ^ k)"
  have x: "x = of_int m' / 2 ^ k'"
    using assms(1) hi
    by (simp add: relevanceOfLengths_def Let_def nearestDouble_def doubleValue_def
        lo_def hi_def k_def m_def k'_def m'_def split: if_splits)
  have "lo * 2 ^ k \<le> 2 ^ k * hi"
    using lo by (simp add: mult.commute)
  then have m: "m \<le> 2 ^ k"
    unfolding m_def using hi by (intro roundRatio_le) auto
  have "m * 100 * 2 ^ k' \<le> (100 * 2 ^ k') * 2 ^ k"
    using m by (simp add: mult.commute mult_left_mono)
  then have "m' \<le> 100 * 2 ^ k'"
    unfolding m'_def by (intro roundRatio_le) auto
  then have "(of_int m' :: rat) \<le> of_int (100 * 2 ^ k')"
    by (simp only: of_int_le_iff)
  then have "(of_int m' :: rat) \<le> 100 * 2 ^ k'" by simp
  then show ?thesis
    unfolding x by (simp add: divide_le_eq)
qed

lemma pairRelevance_le: "pairRelevance a b = Some x \<Longrightarrow> x \<le> 100"
  unfolding pairRelevance_def by (rule relevanceOfLengths_le) auto

text \<open>The relevances of the examples: 62.5, 100 and 28.000000000000004.\<close>

lemma relevance_25_7: "relevanceOfLengths 25 7 = Some (28 + 1 / 2 ^ 48)"
proof -
  have s1: "scaleUp 7 25 = 54"
    by (simp add: scaleUp.simps)
  have r1: "roundRatio (7 * 2 ^ 54) 25 = 5044031582654956"
    by (simp add: roundRatio_def Let_def)
  have n1: "nearestDouble 7 25 = (5044031582654956, 54)"
    using s1 r1 by (simp add: nearestDouble_def)
  have s2: "scaleUp (5044031582654956 * 100) (2 ^ 54) = 48"
    by (simp add: scaleUp.simps)
  have r2: "roundRatio (5044031582654956 * 100 * 2 ^ 48) (2 ^ 54) = 7881299347898369"
    by (simp add: roundRatio_def Let_def)
  have n2: "nearestDouble (5044031582654956 * 100) (2 ^ 54) = (7881299347898369, 48)"
    using s2 r2 by (simp add: nearestDouble_def)
  have v: "doubleValue (7881299347898369, 48) = 28 + 1 / 2 ^ 48"
    by (simp add: doubleValue_def)
  show ?thesis
    using n1 n2 v by (simp add: relevanceOfLengths_def)
qed

lemma relevance_8_5: "relevanceOfLengths 8 5 = Some (125 / 2)"
proof -
  have s1: "scaleUp 5 8 = 53"
    by (simp add: scaleUp.simps)
  have n1: "nearestDouble 5 8 = (5 * 2 ^ 50, 53)"
    using s1 by (simp add: nearestDouble_def roundRatio_def Let_def)
  have s2: "scaleUp (5 * 2 ^ 50 * 100) (2 ^ 53) = 47"
    by (simp add: scaleUp.simps)
  have n2: "nearestDouble (5 * 2 ^ 50 * 100) (2 ^ 53) = (125 * 2 ^ 46, 47)"
    using s2 by (simp add: nearestDouble_def roundRatio_def Let_def)
  have v: "doubleValue (125 * 2 ^ 46, 47) = 125 / 2"
    by (simp add: doubleValue_def)
  show ?thesis
    using n1 n2 v by (simp add: relevanceOfLengths_def)
qed

lemma relevance_5_5: "relevanceOfLengths 5 5 = Some 100"
proof -
  have s1: "scaleUp 5 5 = 52"
    by (simp add: scaleUp.simps)
  have n1: "nearestDouble 5 5 = (2 ^ 52, 52)"
    using s1 by (simp add: nearestDouble_def roundRatio_def Let_def)
  have s2: "scaleUp (2 ^ 52 * 100) (2 ^ 52) = 46"
    by (simp add: scaleUp.simps)
  have n2: "nearestDouble (2 ^ 52 * 100) (2 ^ 52) = (100 * 2 ^ 46, 46)"
    using s2 by (simp add: nearestDouble_def roundRatio_def Let_def)
  have v: "doubleValue (100 * 2 ^ 46, 46) = 100"
    by (simp add: doubleValue_def)
  show ?thesis
    using n1 n2 v by (simp add: relevanceOfLengths_def)
qed

section \<open>Suggestions\<close>

lemma fold_product:
  "fold (\<lambda>x. fold (g x) ys) xs a = fold (\<lambda>p. g (fst p) (snd p)) (List.product xs ys) a"
proof (induction xs arbitrary: a)
  case Nil
  then show ?case by simp
next
  case (Cons x xs)
  have "fold (\<lambda>p. g (fst p) (snd p)) (map (Pair x) ys) a = fold (g x) ys a"
    by (simp add: fold_map comp_def)
  then show ?case using Cons by simp
qed

lemma fold_cond:
  "fold (\<lambda>p acc. if P p then mathMax acc (f p) else acc) ps a =
   fold (\<lambda>x acc. mathMax acc x) (map f (filter P ps)) a"
  by (induction ps arbitrary: a) auto

lemma maxRelevance_fold:
  "maxRelevance terms allTerms =
     fold (\<lambda>x acc. mathMax acc x) (pairRelevances terms allTerms) (Some 0)"
proof -
  have "maxRelevance terms allTerms =
        fold (\<lambda>p acc. if contains (fst p) (snd p)
                       then mathMax acc (pairRelevance (normalizeText (snd p)) (fst p)) else acc)
          (List.product terms allTerms) (Some 0)"
    unfolding maxRelevance_def Let_def contains_def
    by (rule fold_product [where g = "\<lambda>searchTerm candidate acc.
          if includes_str (normalizeText candidate) searchTerm \<or>
             includes_str searchTerm (normalizeText candidate)
          then mathMax acc (pairRelevance (normalizeText candidate) searchTerm) else acc"])
  then show ?thesis
    by (simp add: fold_cond pairRelevances_def)
qed

lemma mathMax_simps:
  "mathMax None b = None" "mathMax a None = None" "mathMax (Some x) (Some y) = Some (max x y)"
  by (auto simp: mathMax_def split: option.splits)

lemma fold_mathMax_NaN: "fold (\<lambda>x acc. mathMax acc x) xs None = None"
  by (induction xs) (auto simp: mathMax_simps)

lemma fold_mathMax:
  "fold (\<lambda>x acc. mathMax acc x) xs (Some a) =
     (if None \<in> set xs then None else Some (fold max (List.map_filter (\<lambda>x. x) xs) a))"
proof (induction xs arbitrary: a)
  case Nil
  then show ?case by simp
next
  case (Cons x xs)
  show ?case
  proof (cases x)
    case None
    then show ?thesis by (simp add: mathMax_simps fold_mathMax_NaN)
  next
    case (Some y)
    then show ?thesis
      using Cons [of "max a y"] by (auto simp: mathMax_simps max.commute)
  qed
qed

lemma maxRelevance_best: "maxRelevance terms (fst entry # snd entry) = bestRelevance terms entry"
  using Max.set_eq_fold [of 0 "List.map_filter (\<lambda>x. x) (pairRelevances terms (fst entry # snd entry))"]
  by (simp add: maxRelevance_fold fold_mathMax bestRelevance_def Let_def)

lemma map_filter_id: "None \<notin> set xs \<Longrightarrow> map Some (List.map_filter (\<lambda>x. x) xs) = xs"
proof (induction xs)
  case Nil
  then show ?case by simp
next
  case (Cons x xs)
  then show ?case by (cases x) auto
qed

lemma bestRelevance_positive:
  assumes "bestRelevance terms entry = Some r" and "0 < r"
  shows "\<exists>rs. pairRelevances terms (fst entry # snd entry) = map Some rs \<and> rs \<noteq> [] \<and>
               r = Max (set rs) \<and> r \<le> 100"
proof -
  let ?found = "pairRelevances terms (fst entry # snd entry)"
  let ?rs = "List.map_filter (\<lambda>x. x) ?found"
  have nn: "None \<notin> set ?found" and r: "r = Max (insert 0 (set ?rs))"
    using assms(1) by (auto simp: bestRelevance_def Let_def split: if_splits)
  have found: "?found = map Some ?rs"
    using nn by (simp add: map_filter_id)
  have "r \<in> insert 0 (set ?rs)"
    unfolding r by (rule Max_in) auto
  then have m: "r \<in> set ?rs" using assms(2) by auto
  then have ne: "?rs \<noteq> []" by auto
  have "Max (set ?rs) = r"
  proof (rule Max_eqI)
    show "finite (set ?rs)" by simp
    show "y \<le> r" if "y \<in> set ?rs" for y
      unfolding r using that by (intro Max_ge) auto
    show "r \<in> set ?rs" by (rule m)
  qed
  moreover have "r \<le> 100"
  proof -
    have "Some r \<in> set ?found" using m found by (metis image_eqI list.set_map)
    then obtain p where "pairRelevance (normalizeText (snd p)) (fst p) = Some r"
      by (auto simp: pairRelevances_def)
    then show ?thesis by (rule pairRelevance_le)
  qed
  ultimately show ?thesis using found ne by metis
qed

lemma suggestionsOf_keywords:
  "map s_keyword (filter (\<lambda>s. relevance s = r) (suggestionsOf terms synonyms iconMappings)) =
   map fst (filter (\<lambda>entry. bestRelevance terms entry = Some r \<and> 0 < r) synonyms)"
  by (induction synonyms)
     (auto simp: suggestionsOf_def Let_def maxRelevance_best split: option.splits)

lemma suggestionsOf_member:
  assumes "s \<in> set (suggestionsOf terms synonyms iconMappings)"
  shows "\<exists>entry \<in> set synonyms. s_keyword s = fst entry \<and>
           s_iconId s = lookupIcon iconMappings (fst entry) \<and>
           bestRelevance terms entry = Some (relevance s) \<and> 0 < relevance s"
  using assms
proof (induction synonyms)
  case Nil
  then show ?case by (simp add: suggestionsOf_def)
next
  case (Cons e es)
  have split: "suggestionsOf terms (e # es) iconMappings =
      (case bestRelevance terms e of
         None \<Rightarrow> []
       | Some r \<Rightarrow>
           if 0 < r
           then [\<lparr>s_keyword = fst e, s_iconId = lookupIcon iconMappings (fst e), relevance = r\<rparr>]
           else []) @ suggestionsOf terms es iconMappings"
    by (simp add: suggestionsOf_def Let_def maxRelevance_best)
  show ?case
  proof (cases "s \<in> set (suggestionsOf terms es iconMappings)")
    case True
    then show ?thesis using Cons.IH by auto
  next
    case False
    then have "bestRelevance terms e = Some (relevance s) \<and> 0 < relevance s \<and>
        s_keyword s = fst e \<and> s_iconId s = lookupIcon iconMappings (fst e)"
      using Cons.prems unfolding split by (auto split: option.splits if_splits)
    then show ?thesis by auto
  qed
qed

lemma slice0_take: "\<exists>n. slice0 xs limit = take n xs"
  by (auto simp: slice0_def)

lemma slice0_length: "0 \<le> limit \<Longrightarrow> length (slice0 xs limit) \<le> nat limit"
  by (simp add: slice0_def)

lemma sorted_sortByRelevance:
  "sorted_wrt (\<lambda>a b. relevance b \<le> relevance a) (sortByRelevance xs)"
proof -
  have "sorted (map (\<lambda>s. - relevance s) (sortByRelevance xs))"
    unfolding sortByRelevance_def by (rule sorted_sort_key)
  then show ?thesis by (simp add: sorted_map)
qed

lemma sorted_wrt_take': "sorted_wrt R xs \<Longrightarrow> sorted_wrt R (take n xs)"
  by (metis append_take_drop_id sorted_wrt_append)

lemma sortByRelevance_stable:
  "filter (\<lambda>s. relevance s = r) (sortByRelevance xs) = filter (\<lambda>s. relevance s = r) xs"
proof -
  have "filter (\<lambda>s. - relevance s = - r) (sortByRelevance xs) = filter (\<lambda>s. - relevance s = - r) xs"
    unfolding sortByRelevance_def by (rule sort_key_stable)
  then show ?thesis by simp
qed

lemma set_sortByRelevance: "set (sortByRelevance xs) = set xs"
  by (simp add: sortByRelevance_def)

lemma suggestions_threeEntries:
  "suggestionsOf (extractKeywords puppy) threeEntries [] =
     [\<lparr>s_keyword = dog, s_iconId = None, relevance = 125 / 2\<rparr>,
      \<lparr>s_keyword = dog @ dog, s_iconId = None, relevance = 125 / 2\<rparr>,
      \<lparr>s_keyword = puppy, s_iconId = None, relevance = 100\<rparr>]"
  using relevance_8_5 relevance_5_5
  by (simp add: threeEntries_def dog_def puppy_def eval_defs suggest_defs)

lemma suggestions_seven:
  "suggestionsOf (extractKeywords seven) [(twentyfive, [])] [] =
     [\<lparr>s_keyword = twentyfive, s_iconId = None, relevance = 28 + 1 / 2 ^ 48\<rparr>]"
  using relevance_25_7
  by (simp add: seven_def twentyfive_def eval_defs suggest_defs)

lemma suggestMatches_threeEntries:
  "suggestMatches puppy 2 threeEntries [] =
     [\<lparr>s_keyword = puppy, s_iconId = None, relevance = 100\<rparr>,
      \<lparr>s_keyword = dog, s_iconId = None, relevance = 125 / 2\<rparr>]"
  by (simp add: suggestMatches_def suggestions_threeEntries sortByRelevance_def slice0_def)

text \<open>
  Claim C7, as amended. For every title, synonym table, icon mapping and limit,
  \<open>suggestMatches\<close> returns its suggestions in an order of non-increasing relevance, at
  most \<open>limit\<close> of them when the limit is not negative; the suggestions of one relevance
  are in the order of their entries in the table (they are the first of the entries with
  that relevance); every returned suggestion belongs to an entry of the table, its icon
  identifier is what the read of the icon mapping gives, and its relevance is the
  maximum, over the pairs of a search term and a candidate of the entry of which one
  contains the other, of the double-precision result of the shorter length divided by
  the longer length, times 100; there is such a pair, and the relevance is above 0 and at
  most 100.
\<close>

theorem suggestMatches_properties:
  "(0 \<le> limit \<longrightarrow> length (suggestMatches trackTitle limit synonyms iconMappings) \<le> nat limit) \<and>
    sorted_wrt (\<lambda>a b. relevance b \<le> relevance a)
      (suggestMatches trackTitle limit synonyms iconMappings) \<and>
    (\<forall>r. prefix
       (map s_keyword (filter (\<lambda>s. relevance s = r)
          (suggestMatches trackTitle limit synonyms iconMappings)))
       (map fst (filter (\<lambda>entry. bestRelevance (extractKeywords trackTitle) entry = Some r \<and> 0 < r)
          synonyms))) \<and>
    (\<forall>s \<in> set (suggestMatches trackTitle limit synonyms iconMappings).
       \<exists>entry \<in> set synonyms. \<exists>rs.
         s_keyword s = fst entry \<and> s_iconId s = lookupIcon iconMappings (fst entry) \<and>
         pairRelevances (extractKeywords trackTitle) (fst entry # snd entry) = map Some rs \<and>
         rs \<noteq> [] \<and> relevance s = Max (set rs) \<and>
         0 < relevance s \<and> relevance s \<le> 100)"
proof -
  let ?terms = "extractKeywords trackTitle"
  let ?all = "suggestionsOf ?terms synonyms iconMappings"
  let ?res = "suggestMatches trackTitle limit synonyms iconMappings"
  obtain n where res: "?res = take n (sortByRelevance ?all)"
    using slice0_take [of "sortByRelevance ?all" limit] by (auto simp: suggestMatches_def)
  have a: "0 \<le> limit \<longrightarrow> length ?res \<le> nat limit"
    by (simp add: suggestMatches_def slice0_length)
  have b: "sorted_wrt (\<lambda>a b. relevance b \<le> relevance a) ?res"
    unfolding res by (rule sorted_wrt_take') (rule sorted_sortByRelevance)
  have c: "prefix (map s_keyword (filter (\<lambda>s. relevance s = r) ?res))
       (map fst (filter (\<lambda>entry. bestRelevance ?terms entry = Some r \<and> 0 < r) synonyms))" for r
  proof -
    have "prefix (filter (\<lambda>s. relevance s = r) ?res)
            (filter (\<lambda>s. relevance s = r) (sortByRelevance ?all))"
      unfolding res by (rule filter_mono_prefix) (rule take_is_prefix)
    then have "prefix (map s_keyword (filter (\<lambda>s. relevance s = r) ?res))
            (map s_keyword (filter (\<lambda>s. relevance s = r) ?all))"
      unfolding sortByRelevance_stable by (rule map_mono_prefix)
    then show ?thesis by (simp only: suggestionsOf_keywords)
  qed
  have d: "\<exists>entry \<in> set synonyms. \<exists>rs.
         s_keyword s = fst entry \<and> s_iconId s = lookupIcon iconMappings (fst entry) \<and>
         pairRelevances ?terms (fst entry # snd entry) = map Some rs \<and>
         rs \<noteq> [] \<and> relevance s = Max (set rs) \<and>
         0 < relevance s \<and> relevance s \<le> 100" if "s \<in> set ?res" for s
  proof -
    have "s \<in> set ?all"
      using that set_sortByRelevance [of ?all] unfolding res by (auto dest: in_set_takeD)
    then obtain entry where e: "entry \<in> set synonyms" "s_keyword s = fst entry"
        "s_iconId s = lookupIcon iconMappings (fst entry)"
        "bestRelevance ?terms entry = Some (relevance s)" "0 < relevance s"
      using suggestionsOf_member by blast
    then show ?thesis
      using bestRelevance_positive [OF e(4) e(5)] by blast
  qed
  show ?thesis using a b c d by blast
qed

theorem suggestMatches_properties_witness:
  "(0 :: int) \<le> 2 \<and>
   suggestMatches puppy 2 threeEntries [] =
     [\<lparr>s_keyword = puppy, s_iconId = None, relevance = 100\<rparr>,
      \<lparr>s_keyword = dog, s_iconId = None, relevance = 125 / 2\<rparr>] \<and>
   length (suggestMatches puppy 2 threeEntries []) \<le> nat 2 \<and>
   sorted_wrt (\<lambda>a b. relevance b \<le> relevance a) (suggestMatches puppy 2 threeEntries []) \<and>
   prefix (map s_keyword (filter (\<lambda>s. relevance s = 125 / 2) (suggestMatches puppy 2 threeEntries [])))
     (map fst (filter (\<lambda>entry. bestRelevance (extractKeywords puppy) entry = Some (125 / 2) \<and>
        (0 :: rat) < 125 / 2) threeEntries))"
proof -
  have h: "(0 :: int) \<le> 2" by simp
  show ?thesis
    using suggestMatches_properties [of 2 puppy threeEntries "[]"] h suggestMatches_threeEntries
    by blast
qed

text \<open>
  The claim as it was stated bounds the number of suggestions by every limit and gives
  the relevance as 100 times the quotient of the lengths. For the limit \<open>-1\<close> the call
  \<^verbatim>\<open>slice(0, -1)\<close> drops the last of three suggestions and returns two. For the lengths
  7 and 25 the quotient is rounded to a double and so is the product, and the relevance
  is 28.000000000000004, which is \<open>28 + 1 / 2 ^ 48\<close>, where the claim gives 28.
\<close>

theorem suggestMatches_negative_limit:
  "\<not> int (length (suggestMatches puppy (- 1) threeEntries [])) \<le> - 1 \<and>
   length seven = 7 \<and> length twentyfive = 25 \<and>
   map relevance (suggestMatches seven 3 [(twentyfive, [])] []) = [28 + 1 / 2 ^ 48] \<and>
   (100 * 7 / 25 :: rat) = 28"
proof -
  have 1: "\<not> int (length (suggestMatches puppy (- 1) threeEntries [])) \<le> - 1"
    by (simp add: suggestMatches_def suggestions_threeEntries sortByRelevance_def slice0_def)
  have 2: "length seven = 7 \<and> length twentyfive = 25"
    by (simp add: seven_def twentyfive_def)
  have 3: "map relevance (suggestMatches seven 3 [(twentyfive, [])] []) = [28 + 1 / 2 ^ 48]"
    by (simp add: suggestMatches_def suggestions_seven sortByRelevance_def slice0_def)
  show ?thesis using 1 2 3 by simp
qed

end
